theory Spec2Isabelle
  imports Main "HOL-Library.Sublist" "HOL-Library.Multiset"
begin

section \<open>The SQL write detector of mcp-snowflake-server\<close>

text \<open>
  The development embeds \<^verbatim>\<open>src/mcp_snowflake_server/write_detector.py\<close>, the class
  \<^verbatim>\<open>SQLWriteDetector\<close>. The detector walks the token trees that the sqlparse library
  returns for a query string. sqlparse is a library outside the repository, so its
  tokenizer is a parameter of \<open>analyze_query\<close> and its token objects are modelled by
  the attributes the detector reads.
\<close>

subsection \<open>Tokens of the tokenizer\<close>

text \<open>
  A token type of sqlparse is a tuple of names, compared by equality when the source
  writes \<^verbatim>\<open>token.ttype in (Keyword, DML, DDL)\<close>: \<^verbatim>\<open>Keyword\<close> is
  \<^verbatim>\<open>('Keyword',)\<close> and \<^verbatim>\<open>DML\<close> is \<^verbatim>\<open>('Keyword', 'DML')\<close>. A grouped token has
  the type \<^verbatim>\<open>None\<close>.
\<close>

type_synonym tokentype = "string list"

definition Keyword :: tokentype where
  "Keyword = [''Keyword'']"

definition DML :: tokentype where
  "DML = [''Keyword'', ''DML'']"

definition DDL :: tokentype where
  "DDL = [''Keyword'', ''DDL'']"

definition CTE :: tokentype where
  "CTE = [''Keyword'', ''CTE'']"

definition Comment :: tokentype where
  "Comment = [''Comment'']"

definition Comment_Single :: tokentype where
  "Comment_Single = [''Comment'', ''Single'']"

definition Comment_Multiline :: tokentype where
  "Comment_Multiline = [''Comment'', ''Multiline'']"

definition Whitespace :: tokentype where
  "Whitespace = [''Text'', ''Whitespace'']"

definition Name :: tokentype where
  "Name = [''Name'']"

definition Punctuation :: tokentype where
  "Punctuation = [''Punctuation'']"

definition Number_Integer :: tokentype where
  "Number_Integer = [''Literal'', ''Number'', ''Integer'']"

definition String_Single :: tokentype where
  "String_Single = [''Literal'', ''String'', ''Single'']"

definition Wildcard :: tokentype where
  "Wildcard = [''Wildcard'']"

definition Comparison :: tokentype where
  "Comparison = [''Operator'', ''Comparison'']"

text \<open>
  The detector reads four attributes of every token (\<^verbatim>\<open>ttype\<close>, \<^verbatim>\<open>normalized\<close>,
  \<^verbatim>\<open>is_keyword\<close>, \<^verbatim>\<open>is_whitespace\<close>) and, of an instance of \<^verbatim>\<open>TokenList\<close>, the
  children \<^verbatim>\<open>tokens\<close>. \<^verbatim>\<open>hasattr(token, 'ttype')\<close> and
  \<^verbatim>\<open>hasattr(token, 'normalized')\<close> hold of every token. The attributes are kept as
  independent fields: the detector is verified for every combination of them.
\<close>

datatype token =
    Token (ttype: "tokentype option") (normalized: string)
          (is_keyword: bool) (is_whitespace: bool)
  | TokenList (ttype: "tokentype option") (normalized: string)
          (is_keyword: bool) (is_whitespace: bool) (tokens: "token list")
  where "tokens (Token ty n k w) = []"

text \<open>
  A statement is a \<^verbatim>\<open>TokenList\<close> of which the detector reads the children only, so a
  statement (and every \<^verbatim>\<open>TokenList\<close> passed on as one) is represented by its
  \<^verbatim>\<open>tokens\<close>.
\<close>

type_synonym statement = "token list"

subsection \<open>Strings\<close>

text \<open>
  \<^verbatim>\<open>str.upper\<close> on ASCII text: the letters a to z are mapped to A to Z, every other
  character is kept. Python's \<^verbatim>\<open>str.upper\<close> also maps letters outside ASCII, some of
  them to ASCII letters (U+0131 to I, U+017F to S); text with such letters is outside
  this definition. The general theorems below use of \<open>upper\<close> only that it leaves
  the thirteen write keywords unchanged; the definition is unfolded where a concrete
  ASCII text is evaluated.
\<close>

definition upper_char :: "char \<Rightarrow> char" where
  "upper_char c =
     (case map_of (zip ''abcdefghijklmnopqrstuvwxyz'' ''ABCDEFGHIJKLMNOPQRSTUVWXYZ'') c of
        None \<Rightarrow> c
      | Some u \<Rightarrow> u)"

definition upper :: "string \<Rightarrow> string" where
  "upper s = map upper_char s"

text \<open>\<^verbatim>\<open>a in b\<close> on two strings: \<open>a\<close> is a contiguous part of \<open>b\<close>.\<close>

definition str_in :: "string \<Rightarrow> string \<Rightarrow> bool" where
  "str_in a b = sublist a b"

subsection \<open>The keyword sets\<close>

definition dml_write_keywords :: "string set" where
  "dml_write_keywords =
     {''INSERT'', ''UPDATE'', ''DELETE'', ''MERGE'', ''UPSERT'', ''REPLACE''}"

definition ddl_keywords :: "string set" where
  "ddl_keywords = {''CREATE'', ''ALTER'', ''DROP'', ''TRUNCATE'', ''RENAME''}"

definition dcl_keywords :: "string set" where
  "dcl_keywords = {''GRANT'', ''REVOKE''}"

definition write_keywords :: "string set" where
  "write_keywords = dml_write_keywords \<union> ddl_keywords \<union> dcl_keywords"

subsection \<open>The detector\<close>

text \<open>\<^verbatim>\<open>token.ttype in (Keyword, DML, DDL) or token.is_keyword\<close>\<close>

definition keyword_classified :: "token \<Rightarrow> bool" where
  "keyword_classified t \<longleftrightarrow>
     ttype t \<in> {Some Keyword, Some DML, Some DDL} \<or> is_keyword t"

text \<open>\<^verbatim>\<open>token.is_keyword and token.normalized == "WITH"\<close>\<close>

definition is_with :: "token \<Rightarrow> bool" where
  "is_with t \<longleftrightarrow> is_keyword t \<and> normalized t = ''WITH''"

definition has_cte :: "statement \<Rightarrow> bool" where
  "has_cte stmt \<longleftrightarrow> (\<exists>t \<in> set stmt. is_with t)"

text \<open>
  \<^verbatim>\<open>_find_write_operations_in_token\<close>: the exact match on a keyword token, the match
  of every write keyword as a part of the upper-cased text, and the children.
\<close>

fun find_write_operations_in_token :: "token \<Rightarrow> string set" where
  "find_write_operations_in_token (Token ty n k w) =
     (if keyword_classified (Token ty n k w) \<and> upper n \<in> write_keywords
      then {upper n} else {})
     \<union> {write_kw \<in> write_keywords. str_in write_kw (upper n)}"
| "find_write_operations_in_token (TokenList ty n k w cs) =
     (if keyword_classified (TokenList ty n k w cs) \<and> upper n \<in> write_keywords
      then {upper n} else {})
     \<union> {write_kw \<in> write_keywords. str_in write_kw (upper n)}
     \<union> (\<Union>child_token \<in> set cs. find_write_operations_in_token child_token)"

text \<open>
  \<^verbatim>\<open>_analyze_cte\<close>: the loop over the statement's tokens, with the flag
  \<^verbatim>\<open>in_cte\<close> as the state.
\<close>

fun analyze_cte_loop :: "bool \<Rightarrow> token list \<Rightarrow> bool" where
  "analyze_cte_loop in_cte [] = False"
| "analyze_cte_loop in_cte (t # ts) =
     (if is_with t then analyze_cte_loop True ts
      else if in_cte then
        (if find_write_operations_in_token t \<noteq> {} then True
         else analyze_cte_loop in_cte ts)
      else analyze_cte_loop in_cte ts)"

definition analyze_cte :: "statement \<Rightarrow> bool" where
  "analyze_cte stmt = analyze_cte_loop False stmt"

text \<open>\<^verbatim>\<open>token.is_whitespace or token.ttype in (sqlparse.tokens.Comment,)\<close>\<close>

definition skipped :: "token \<Rightarrow> bool" where
  "skipped t \<longleftrightarrow> is_whitespace t \<or> ttype t = Some Comment"

text \<open>\<^verbatim>\<open>_find_write_operations\<close>: the loop over the tokens of a \<^verbatim>\<open>TokenList\<close>.\<close>

fun find_write_operations :: "token list \<Rightarrow> string set" where
  "find_write_operations [] = {}"
| "find_write_operations (t # ts) =
     (if skipped t then find_write_operations ts
      else
        (if keyword_classified t \<and> upper (normalized t) \<in> write_keywords
         then {upper (normalized t)} else {})
        \<union> (case t of
             Token ty n k w \<Rightarrow> {}
           | TokenList ty n k w cs \<Rightarrow> find_write_operations cs)
        \<union> find_write_operations ts)"

subsection \<open>The analysis\<close>

record analysis_result =
  contains_write :: bool
  write_operations :: "string set"
  has_cte_write :: bool

text \<open>
  The body of the loop over the statements, on the state
  \<^verbatim>\<open>(found_operations, has_cte_write)\<close>.
\<close>

definition analyze_statement :: "statement \<Rightarrow> string set \<times> bool \<Rightarrow> string set \<times> bool" where
  "analyze_statement stmt st =
     (case st of (found_operations, cte_flag) \<Rightarrow>
        (let (found1, flag1) =
               (if has_cte stmt \<and> analyze_cte stmt
                then (insert ''CTE_WRITE'' found_operations, True)
                else (found_operations, cte_flag))
         in (found1 \<union> find_write_operations stmt, flag1)))"

definition analyze_parsed :: "statement list \<Rightarrow> analysis_result" where
  "analyze_parsed parsed =
     (if parsed = [] then
        \<lparr>contains_write = False, write_operations = {}, has_cte_write = False\<rparr>
      else
        (case fold analyze_statement parsed ({}, False) of
           (found_operations, cte_flag) \<Rightarrow>
             \<lparr>contains_write = (found_operations \<noteq> {} \<or> cte_flag),
              write_operations = found_operations,
              has_cte_write = cte_flag\<rparr>))"

text \<open>
  \<^verbatim>\<open>analyze_query\<close>. \<^verbatim>\<open>sqlparse.parse\<close> is the parameter \<open>parse\<close>; the call is not
  inside a \<^verbatim>\<open>try\<close>, so an exception raised by the tokenizer is raised by
  \<^verbatim>\<open>analyze_query\<close> too. The functions of the detector raise nothing themselves.
\<close>

datatype error = TokenizerError string | AttributeError string

definition analyze_query ::
  "(string \<Rightarrow> error + statement list) \<Rightarrow> string \<Rightarrow> error + analysis_result" where
  "analyze_query parse sql_query =
     (case parse sql_query of
        Inl e \<Rightarrow> Inl e
      | Inr parsed \<Rightarrow> Inr (analyze_parsed parsed))"

subsection \<open>The detector with its attribute errors\<close>

text \<open>
  The functions above take the children of a \<^verbatim>\<open>TokenList\<close>. The source passes the
  object and reads \<^verbatim>\<open>.tokens\<close> from it, which raises \<^verbatim>\<open>AttributeError\<close> on a token
  that is no \<^verbatim>\<open>TokenList\<close>. The second embedding below keeps this error as a value,
  so that what the source can raise is a branch of the model:
  \<^verbatim>\<open>_find_write_operations(token)\<close> on any token object, the loop in its body, and
  the loop of \<^verbatim>\<open>analyze_query\<close> that stops at the first exception.
\<close>

definition isinstance_TokenList :: "token \<Rightarrow> bool" where
  "isinstance_TokenList t = (case t of Token ty n k w \<Rightarrow> False | TokenList ty n k w cs \<Rightarrow> True)"

fun find_write_operations_of :: "token \<Rightarrow> error + string set"
  and find_write_operations_exc :: "token list \<Rightarrow> error + string set" where
  "find_write_operations_of (Token ty n k w) = Inl (AttributeError ''tokens'')"
| "find_write_operations_of (TokenList ty n k w cs) = find_write_operations_exc cs"
| "find_write_operations_exc [] = Inr {}"
| "find_write_operations_exc (t # ts) =
     (if skipped t then find_write_operations_exc ts
      else
        (case (if isinstance_TokenList t then find_write_operations_of t else Inr {}) of
           Inl e \<Rightarrow> Inl e
         | Inr child_ops \<Rightarrow>
             (case find_write_operations_exc ts of
                Inl e \<Rightarrow> Inl e
              | Inr operations \<Rightarrow>
                  Inr ((if keyword_classified t \<and> upper (normalized t) \<in> write_keywords
                        then {upper (normalized t)} else {})
                       \<union> child_ops \<union> operations))))"

text \<open>
  \<^verbatim>\<open>_has_cte\<close>, \<^verbatim>\<open>_analyze_cte\<close> and \<^verbatim>\<open>_find_write_operations_in_token\<close> read
  \<^verbatim>\<open>.tokens\<close> from the statement, which is a \<^verbatim>\<open>TokenList\<close>, and from a token in
  the branch of \<^verbatim>\<open>isinstance(token, TokenList)\<close> itself; they are taken as above.
\<close>

definition analyze_statement_exc ::
  "statement \<Rightarrow> error + string set \<times> bool \<Rightarrow> error + string set \<times> bool" where
  "analyze_statement_exc stmt st =
     (case st of
        Inl e \<Rightarrow> Inl e
      | Inr (found_operations, cte_flag) \<Rightarrow>
          (let (found1, flag1) =
                 (if has_cte stmt \<and> analyze_cte stmt
                  then (insert ''CTE_WRITE'' found_operations, True)
                  else (found_operations, cte_flag))
           in (case find_write_operations_exc stmt of
                 Inl e \<Rightarrow> Inl e
               | Inr operations \<Rightarrow> Inr (found1 \<union> operations, flag1))))"

definition analyze_query_exc ::
  "(string \<Rightarrow> error + statement list) \<Rightarrow> string \<Rightarrow> error + analysis_result" where
  "analyze_query_exc parse sql_query =
     (case parse sql_query of
        Inl e \<Rightarrow> Inl e
      | Inr parsed \<Rightarrow>
          (if parsed = [] then
             Inr \<lparr>contains_write = False, write_operations = {}, has_cte_write = False\<rparr>
           else
             (case fold analyze_statement_exc parsed (Inr ({}, False)) of
                Inl e \<Rightarrow> Inl e
              | Inr (found_operations, cte_flag) \<Rightarrow>
                  Inr \<lparr>contains_write = (found_operations \<noteq> {} \<or> cte_flag),
                       write_operations = found_operations,
                       has_cte_write = cte_flag\<rparr>)))"


subsection \<open>Notions used to state the properties\<close>

text \<open>
  What one statement adds in the loop of \<open>analyze_query\<close>: whether the scan of its
  tokens after \<^verbatim>\<open>WITH\<close> reports a write, and the strings it adds to
  \<^verbatim>\<open>found_operations\<close>.
\<close>

definition cte_write :: "statement \<Rightarrow> bool" where
  "cte_write stmt \<longleftrightarrow> has_cte stmt \<and> analyze_cte stmt"

definition statement_operations :: "statement \<Rightarrow> string set" where
  "statement_operations stmt =
     (if cte_write stmt then {''CTE_WRITE''} else {}) \<union> find_write_operations stmt"

text \<open>The result of the early return, and the merge of two results.\<close>

definition no_write :: analysis_result where
  "no_write = \<lparr>contains_write = False, write_operations = {}, has_cte_write = False\<rparr>"

definition merge_results :: "analysis_result \<Rightarrow> analysis_result \<Rightarrow> analysis_result" where
  "merge_results a b =
     \<lparr>contains_write = (write_operations a \<union> write_operations b \<noteq> {}
                          \<or> has_cte_write a \<or> has_cte_write b),
      write_operations = write_operations a \<union> write_operations b,
      has_cte_write = (has_cte_write a \<or> has_cte_write b)\<rparr>"

text \<open>
  A token list without the tokens that the search skips, at every depth of nesting.
\<close>

fun remove_skipped :: "token list \<Rightarrow> token list" where
  "remove_skipped [] = []"
| "remove_skipped (t # ts) =
     (if skipped t then remove_skipped ts
      else (case t of
              Token ty n k w \<Rightarrow> t
            | TokenList ty n k w cs \<Rightarrow> TokenList ty n k w (remove_skipped cs))
           # remove_skipped ts)"

text \<open>
  \<open>occurs_at d t ts\<close>: the token \<open>t\<close> lies \<open>d\<close> containers deep below the tokens
  \<open>ts\<close>, and neither \<open>t\<close> nor a container around it is skipped as comment or
  whitespace.
\<close>

primrec occurs_at :: "nat \<Rightarrow> token \<Rightarrow> token list \<Rightarrow> bool" where
  "occurs_at 0 t ts \<longleftrightarrow> t \<in> set ts \<and> \<not> skipped t"
| "occurs_at (Suc d) t ts \<longleftrightarrow>
     (\<exists>c \<in> set ts. \<not> skipped c \<and> occurs_at d t (tokens c))"

text \<open>A token with all the tokens below it.\<close>

fun subtokens :: "token \<Rightarrow> token list" where
  "subtokens (Token ty n k w) = [Token ty n k w]"
| "subtokens (TokenList ty n k w cs) =
     TokenList ty n k w cs # concat (map subtokens cs)"

text \<open>
  Tokens of whitespace and of comments as the tokenizer builds them: a leaf that is
  whitespace or whose type is \<^verbatim>\<open>Comment\<close> or below it (\<^verbatim>\<open>Comment.Single\<close>,
  \<^verbatim>\<open>Comment.Multiline\<close>), or a group of such tokens; none of them is flagged as a
  keyword.
\<close>

definition comment_type :: "tokentype option \<Rightarrow> bool" where
  "comment_type ty \<longleftrightarrow> (case ty of None \<Rightarrow> False | Some p \<Rightarrow> prefix Comment p)"

fun blank :: "token \<Rightarrow> bool" where
  "blank (Token ty n k w) \<longleftrightarrow> \<not> k \<and> (w \<or> comment_type ty)"
| "blank (TokenList ty n k w cs) \<longleftrightarrow>
     \<not> k \<and> (w \<or> ty = Some Comment \<or> (ty = None \<and> (\<forall>c \<in> set cs. blank c)))"

subsection \<open>Token trees of example queries\<close>

text \<open>
  A keyword token carries its upper-cased text and the keyword flag; a group has no
  type and the text of its children.
\<close>

definition keyword_token :: "tokentype \<Rightarrow> string \<Rightarrow> token" where
  "keyword_token ty s = Token (Some ty) s True False"

definition space :: token where
  "space = Token (Some Whitespace) '' '' False True"

definition plain_token :: "tokentype \<Rightarrow> string \<Rightarrow> token" where
  "plain_token ty s = Token (Some ty) s False False"

definition group :: "string \<Rightarrow> token list \<Rightarrow> token" where
  "group s cs = TokenList None s False False cs"

definition quoted :: "string \<Rightarrow> string" where
  "quoted s = CHR 0x27 # s @ [CHR 0x27]"

text \<open>A tokenizer that returns the given statements, and one that raises.\<close>

definition returns :: "statement list \<Rightarrow> string \<Rightarrow> error + statement list" where
  "returns parsed sql_query = Inr parsed"

definition raises :: "error \<Rightarrow> string \<Rightarrow> error + statement list" where
  "raises e sql_query = Inl e"

text \<open>
  A query of parentheses nested deeper than the tokenizer groups; sqlparse raises
  \<^verbatim>\<open>SQLParseError\<close> on such text.
\<close>

definition deeply_nested :: string where
  "deeply_nested = replicate 10000 (CHR ''('') @ replicate 10000 (CHR '')'')"

text \<open>\<^verbatim>\<open>WITH c AS (SELECT 1) DELETE FROM t\<close>\<close>

definition cte_select_1 :: token where
  "cte_select_1 =
     group ''c AS (SELECT 1)''
       [plain_token Name ''c'', space, keyword_token Keyword ''AS'', space,
        group ''(SELECT 1)''
          [plain_token Punctuation ''('', keyword_token DML ''SELECT'', space,
           plain_token Number_Integer ''1'', plain_token Punctuation '')'']]"

definition with_delete :: statement where
  "with_delete =
     [keyword_token CTE ''WITH'', space, cte_select_1, space,
      keyword_token DML ''DELETE'', space, keyword_token Keyword ''FROM'', space,
      group ''t'' [plain_token Name ''t'']]"

text \<open>\<^verbatim>\<open>WITH c AS (SELECT update_count FROM t) SELECT * FROM c\<close>\<close>

definition cte_update_count :: token where
  "cte_update_count =
     group ''c AS (SELECT update_count FROM t)''
       [plain_token Name ''c'', space, keyword_token Keyword ''AS'', space,
        group ''(SELECT update_count FROM t)''
          [plain_token Punctuation ''('', keyword_token DML ''SELECT'', space,
           group ''update_count'' [plain_token Name ''update_count''], space,
           keyword_token Keyword ''FROM'', space,
           group ''t'' [plain_token Name ''t''], plain_token Punctuation '')'']]"

definition select_from_c :: "token list" where
  "select_from_c =
     [space, keyword_token DML ''SELECT'', space, plain_token Wildcard ''*'', space,
      keyword_token Keyword ''FROM'', space, group ''c'' [plain_token Name ''c'']]"

definition with_update_count :: statement where
  "with_update_count =
     keyword_token CTE ''WITH'' # space # cte_update_count # select_from_c"

text \<open>\<^verbatim>\<open>WITH c AS (SELECT 'DELETE') SELECT * FROM c\<close>\<close>

definition cte_string_delete :: token where
  "cte_string_delete =
     group (''c AS (SELECT '' @ quoted ''DELETE'' @ '')'')
       [plain_token Name ''c'', space, keyword_token Keyword ''AS'', space,
        group (''(SELECT '' @ quoted ''DELETE'' @ '')'')
          [plain_token Punctuation ''('', keyword_token DML ''SELECT'', space,
           plain_token String_Single (quoted ''DELETE''),
           plain_token Punctuation '')'']]"

definition with_string_delete :: statement where
  "with_string_delete =
     keyword_token CTE ''WITH'' # space # cte_string_delete # select_from_c"

text \<open>\<^verbatim>\<open>SELECT 1; UPDATE t SET x=1\<close>, two statements\<close>

definition select_1 :: statement where
  "select_1 =
     [keyword_token DML ''SELECT'', space, plain_token Number_Integer ''1'',
      plain_token Punctuation '';'', space]"

definition update_t :: statement where
  "update_t =
     [keyword_token DML ''UPDATE'', space, group ''t'' [plain_token Name ''t''], space,
      keyword_token Keyword ''SET'', space,
      group ''x=1''
        [group ''x'' [plain_token Name ''x''], plain_token Comparison ''='',
         plain_token Number_Integer ''1'']]"

text \<open>\<^verbatim>\<open>SELECT * FROM (SELECT * FROM (SELECT * FROM (DELETE FROM t)))\<close>\<close>

definition delete_token :: token where
  "delete_token = keyword_token DML ''DELETE''"

definition nested_delete :: statement where
  "nested_delete =
     [keyword_token DML ''SELECT'', space, plain_token Wildcard ''*'', space,
      keyword_token Keyword ''FROM'', space,
      group ''(SELECT * FROM (SELECT * FROM (DELETE FROM t)))''
        [plain_token Punctuation ''('', keyword_token DML ''SELECT'', space,
         plain_token Wildcard ''*'', space, keyword_token Keyword ''FROM'', space,
         group ''(SELECT * FROM (DELETE FROM t))''
           [plain_token Punctuation ''('', keyword_token DML ''SELECT'', space,
            plain_token Wildcard ''*'', space, keyword_token Keyword ''FROM'', space,
            group ''(DELETE FROM t)''
              [plain_token Punctuation ''('', delete_token, space,
               keyword_token Keyword ''FROM'', space,
               group ''t'' [plain_token Name ''t''], plain_token Punctuation '')''],
            plain_token Punctuation '')''],
         plain_token Punctuation '')'']]"

text \<open>\<^verbatim>\<open>-- DROP TABLE t\<close>, a statement of one comment\<close>

definition comment_only :: statement where
  "comment_only =
     [group ''-- DROP TABLE t'' [plain_token Comment_Single ''-- DROP TABLE t'']]"

text \<open>
  \<^verbatim>\<open>WITH c AS (SELECT 1 /* DELETE */) SELECT * FROM c\<close> and the same query without
  the comment. The tokenizer puts a comment into a group without a type, around a
  leaf of the type \<^verbatim>\<open>Comment.Multiline\<close>; the group of the CTE keeps the text of its
  first token.
\<close>

definition comment_delete :: token where
  "comment_delete =
     group ''/* DELETE */'' [plain_token Comment_Multiline ''/* DELETE */'']"

definition cte_c :: "string \<Rightarrow> token list \<Rightarrow> token" where
  "cte_c text body =
     group ''c''
       [plain_token Name ''c'', space, keyword_token Keyword ''AS'', space,
        group text (plain_token Punctuation ''('' # body @ [plain_token Punctuation '')''])]"

definition with_comment_delete :: statement where
  "with_comment_delete =
     keyword_token CTE ''WITH'' # space #
     cte_c ''(SELECT 1 /* DELETE */)''
       [keyword_token DML ''SELECT'', space, plain_token Number_Integer ''1'', space,
        comment_delete] #
     select_from_c"

definition with_select_1 :: statement where
  "with_select_1 =
     keyword_token CTE ''WITH'' # space #
     cte_c ''(SELECT 1)''
       [keyword_token DML ''SELECT'', space, plain_token Number_Integer ''1''] #
     select_from_c"

section \<open>Properties of the detector\<close>

subsection \<open>The loop over the statements\<close>

lemma analyze_statement_eq:
  "analyze_statement stmt (F, c) =
     (F \<union> statement_operations stmt, c \<or> cte_write stmt)"
  by (auto simp: analyze_statement_def statement_operations_def cte_write_def)

lemma fold_analyze_statement:
  "fold analyze_statement parsed (F, c) =
     (F \<union> (\<Union>stmt \<in> set parsed. statement_operations stmt),
      c \<or> (\<exists>stmt \<in> set parsed. cte_write stmt))"
proof (induction parsed arbitrary: F c)
  case Nil
  show ?case by simp
next
  case (Cons stmt parsed)
  show ?case
    by (simp add: analyze_statement_eq Cons.IH Un_assoc)
qed

lemma analyze_parsed_eq:
  "analyze_parsed parsed =
     \<lparr>contains_write = ((\<Union>stmt \<in> set parsed. statement_operations stmt) \<noteq> {}
                          \<or> (\<exists>stmt \<in> set parsed. cte_write stmt)),
      write_operations = (\<Union>stmt \<in> set parsed. statement_operations stmt),
      has_cte_write = (\<exists>stmt \<in> set parsed. cte_write stmt)\<rparr>"
  by (simp add: analyze_parsed_def fold_analyze_statement) blast

lemma write_operations_analyze_parsed:
  "write_operations (analyze_parsed parsed) =
     (\<Union>stmt \<in> set parsed. statement_operations stmt)"
  by (simp add: analyze_parsed_eq)

lemma has_cte_write_analyze_parsed:
  "has_cte_write (analyze_parsed parsed) \<longleftrightarrow> (\<exists>stmt \<in> set parsed. cte_write stmt)"
  by (simp add: analyze_parsed_eq)

lemma contains_write_analyze_parsed:
  "contains_write (analyze_parsed parsed) \<longleftrightarrow>
     write_operations (analyze_parsed parsed) \<noteq> {} \<or> has_cte_write (analyze_parsed parsed)"
  by (simp add: analyze_parsed_eq)

lemma analyze_query_Inr:
  "analyze_query parse sql_query = Inr r \<Longrightarrow> \<exists>parsed. parse sql_query = Inr parsed \<and> r = analyze_parsed parsed"
  by (auto simp: analyze_query_def split: sum.splits)

subsection \<open>The keyword sets\<close>

lemma write_keywords_eq:
  "write_keywords =
     {''INSERT'', ''UPDATE'', ''DELETE'', ''MERGE'', ''UPSERT'', ''REPLACE'',
      ''CREATE'', ''ALTER'', ''DROP'', ''TRUNCATE'', ''RENAME'', ''GRANT'', ''REVOKE''}"
  by (auto simp: write_keywords_def dml_write_keywords_def ddl_keywords_def dcl_keywords_def)

lemma CTE_WRITE_not_keyword: "''CTE_WRITE'' \<notin> write_keywords"
  by (simp add: write_keywords_eq)

lemma upper_write_keyword: "write_kw \<in> write_keywords \<Longrightarrow> upper write_kw = write_kw"
  unfolding write_keywords_eq by (auto simp: upper_def upper_char_def)

lemma find_write_operations_subset: "find_write_operations ts \<subseteq> write_keywords"
  by (induction ts rule: find_write_operations.induct) (auto split: token.splits)

subsection \<open>The members of the set of operations\<close>

text \<open>
  C3: whenever \<open>analyze_query\<close> returns a result, every member of its
  \<open>write_operations\<close> is one of the thirteen write keywords or the marker
  \<^verbatim>\<open>CTE_WRITE\<close>.
\<close>

theorem write_operations_subset_keywords:
  assumes "analyze_query parse sql_query = Inr r"
  shows "write_operations r \<subseteq>
     {''INSERT'', ''UPDATE'', ''DELETE'', ''MERGE'', ''UPSERT'', ''REPLACE'',
      ''CREATE'', ''ALTER'', ''DROP'', ''TRUNCATE'', ''RENAME'', ''GRANT'', ''REVOKE''}
     \<union> {''CTE_WRITE''}"
proof -
  from assms obtain parsed where r: "r = analyze_parsed parsed"
    by (auto dest: analyze_query_Inr)
  have "statement_operations stmt \<subseteq> write_keywords \<union> {''CTE_WRITE''}" for stmt
    using find_write_operations_subset [of stmt] by (auto simp: statement_operations_def)
  then have "write_operations r \<subseteq> write_keywords \<union> {''CTE_WRITE''}"
    unfolding r write_operations_analyze_parsed by blast
  then show ?thesis unfolding write_keywords_eq .
qed

text \<open>
  The theorem at the query \<^verbatim>\<open>WITH c AS (SELECT 1) DELETE FROM t\<close>, whose result holds
  a keyword and the marker.
\<close>

theorem write_operations_subset_keywords_witness:
  "analyze_query (returns [with_delete]) ''WITH c AS (SELECT 1) DELETE FROM t'' =
     Inr \<lparr>contains_write = True, write_operations = {''CTE_WRITE'', ''DELETE''},
          has_cte_write = True\<rparr>
   \<and> {''CTE_WRITE'', ''DELETE''} \<subseteq>
     {''INSERT'', ''UPDATE'', ''DELETE'', ''MERGE'', ''UPSERT'', ''REPLACE'',
      ''CREATE'', ''ALTER'', ''DROP'', ''TRUNCATE'', ''RENAME'', ''GRANT'', ''REVOKE''}
     \<union> {''CTE_WRITE''}"
proof -
  have h: "analyze_query (returns [with_delete]) ''WITH c AS (SELECT 1) DELETE FROM t'' =
     Inr \<lparr>contains_write = True, write_operations = {''CTE_WRITE'', ''DELETE''},
          has_cte_write = True\<rparr>"
    by code_simp
  show ?thesis
    using h write_operations_subset_keywords [OF h] by simp
qed

subsection \<open>The consistency of the three fields\<close>

text \<open>
  C4: in every result of \<open>analyze_query\<close>, \<open>contains_write\<close> holds exactly when
  \<open>write_operations\<close> is not empty or \<open>has_cte_write\<close> holds, and when
  \<open>has_cte_write\<close> holds the marker \<^verbatim>\<open>CTE_WRITE\<close> is a member of
  \<open>write_operations\<close>.
\<close>

theorem contains_write_consistent:
  assumes "analyze_query parse sql_query = Inr r"
  shows "(contains_write r \<longleftrightarrow> write_operations r \<noteq> {} \<or> has_cte_write r)
     \<and> (has_cte_write r \<longrightarrow> ''CTE_WRITE'' \<in> write_operations r)"
proof -
  from assms obtain parsed where r: "r = analyze_parsed parsed"
    by (auto dest: analyze_query_Inr)
  have "has_cte_write r \<longrightarrow> ''CTE_WRITE'' \<in> write_operations r"
    unfolding r write_operations_analyze_parsed has_cte_write_analyze_parsed
    by (auto simp: statement_operations_def)
  then show ?thesis
    using contains_write_analyze_parsed [of parsed] by (simp add: r)
qed

text \<open>
  The theorem at \<^verbatim>\<open>WITH c AS (SELECT update_count FROM t) SELECT * FROM c\<close>, where
  \<open>has_cte_write\<close> holds.
\<close>

theorem contains_write_consistent_witness:
  "analyze_query (returns [with_update_count])
       ''WITH c AS (SELECT update_count FROM t) SELECT * FROM c'' =
     Inr \<lparr>contains_write = True, write_operations = {''CTE_WRITE''},
          has_cte_write = True\<rparr>
   \<and> ''CTE_WRITE'' \<in> {''CTE_WRITE''}"
proof -
  have h: "analyze_query (returns [with_update_count])
       ''WITH c AS (SELECT update_count FROM t) SELECT * FROM c'' =
     Inr \<lparr>contains_write = True, write_operations = {''CTE_WRITE''},
          has_cte_write = True\<rparr>"
    by code_simp
  show ?thesis
    using h contains_write_consistent [OF h] by simp
qed

subsection \<open>The scan after WITH and the main query\<close>

text \<open>
  C1: the detector at \<^verbatim>\<open>WITH c AS (SELECT 1) DELETE FROM t\<close>. No write keyword
  occurs in the definition of the CTE, not even as a part of a text, and yet
  \<open>has_cte_write\<close> holds and the marker is added: the flag \<^verbatim>\<open>in_cte\<close> stays set
  after the CTE, so the \<^verbatim>\<open>DELETE\<close> of the main query is found by the scan.
\<close>

theorem has_cte_write_main_query_delete:
  "analyze_query (returns [with_delete]) ''WITH c AS (SELECT 1) DELETE FROM t'' =
     Inr \<lparr>contains_write = True, write_operations = {''CTE_WRITE'', ''DELETE''},
          has_cte_write = True\<rparr>
   \<and> find_write_operations_in_token cte_select_1 = {}"
  by code_simp

subsection \<open>Exceptions\<close>

text \<open>
  The detector with its attribute errors returns what the detector on the children
  returns: the loop calls \<^verbatim>\<open>_find_write_operations\<close> on a token only after
  \<^verbatim>\<open>isinstance(token, TokenList)\<close>, so \<^verbatim>\<open>.tokens\<close> is never read from a leaf.
\<close>

lemma find_write_operations_exc_eq:
  "isinstance_TokenList t \<Longrightarrow>
     find_write_operations_of t = Inr (find_write_operations (tokens t))"
  "find_write_operations_exc ts = Inr (find_write_operations ts)"
proof (induction t and ts rule: find_write_operations_of_find_write_operations_exc.induct)
  case (1 ty n k w)
  then show ?case by (simp add: isinstance_TokenList_def)
next
  case (2 ty n k w cs)
  then show ?case by simp
next
  case 3
  show ?case by simp
next
  case (4 t ts)
  show ?case
  proof (cases "skipped t")
    case True
    with 4 show ?thesis by simp
  next
    case False
    show ?thesis
    proof (cases t)
      case (Token ty n k w)
      with False 4 show ?thesis
        by (simp add: isinstance_TokenList_def)
    next
      case (TokenList ty n k w cs)
      with False 4 show ?thesis
        by (simp add: isinstance_TokenList_def Un_assoc)
    qed
  qed
qed

lemma fold_analyze_statement_exc:
  "fold analyze_statement_exc parsed (Inr st) = Inr (fold analyze_statement parsed st)"
proof (induction parsed arbitrary: st)
  case Nil
  show ?case by simp
next
  case (Cons stmt parsed)
  have "analyze_statement_exc stmt (Inr st) = Inr (analyze_statement stmt st)"
    by (cases st)
       (simp add: analyze_statement_exc_def analyze_statement_def
          find_write_operations_exc_eq(2) split: prod.splits)
  then show ?case by (simp add: Cons.IH)
qed

lemma analyze_query_exc_eq:
  "analyze_query_exc parse sql_query = analyze_query parse sql_query"
  by (simp add: analyze_query_exc_def analyze_query_def analyze_parsed_def
      fold_analyze_statement_exc split: sum.splits prod.splits)

text \<open>
  C2, as stated, fails where the tokenizer raises: \<^verbatim>\<open>analyze_query\<close> has no handler
  and the exception of the tokenizer is its outcome.
\<close>

theorem analyze_query_raises_counterexample:
  "analyze_query_exc (raises (TokenizerError ''SQLParseError'')) deeply_nested =
     Inl (TokenizerError ''SQLParseError'')"
  by (simp add: analyze_query_exc_def raises_def)

text \<open>
  C2, amended: for every query on which the tokenizer returns statements,
  \<^verbatim>\<open>analyze_query\<close>, taken with its attribute errors, returns an analysis result,
  the one computed from the statements: \<^verbatim>\<open>.tokens\<close> is never read from an object
  without it and the detector raises nothing of its own. An exception of the tokenizer
  is passed on unchanged.
\<close>

theorem analyze_query_exc_returns_or_propagates:
  "(parse sql_query = Inr parsed \<longrightarrow>
      analyze_query_exc parse sql_query = Inr (analyze_parsed parsed))
   \<and> (parse sql_query = Inl e \<longrightarrow> analyze_query_exc parse sql_query = Inl e)"
  by (simp add: analyze_query_exc_eq analyze_query_def)

text \<open>
  The theorem at \<^verbatim>\<open>SELECT 1; SELECT * FROM (SELECT * FROM (SELECT * FROM (DELETE FROM
  t)))\<close>, where the search goes through three nested groups, and at a tokenizer that
  raises. Outside the guard of \<^verbatim>\<open>isinstance\<close> the call on a leaf does raise.
\<close>

theorem analyze_query_exc_returns_or_propagates_witness:
  "returns [select_1, nested_delete]
       ''SELECT 1; SELECT * FROM (SELECT * FROM (SELECT * FROM (DELETE FROM t)))'' =
     Inr [select_1, nested_delete]
   \<and> analyze_query_exc (returns [select_1, nested_delete])
       ''SELECT 1; SELECT * FROM (SELECT * FROM (SELECT * FROM (DELETE FROM t)))'' =
     Inr \<lparr>contains_write = True, write_operations = {''DELETE''}, has_cte_write = False\<rparr>
   \<and> raises (TokenizerError ''SQLParseError'') deeply_nested =
       Inl (TokenizerError ''SQLParseError'')
   \<and> analyze_query_exc (raises (TokenizerError ''SQLParseError'')) deeply_nested =
       Inl (TokenizerError ''SQLParseError'')
   \<and> find_write_operations_of delete_token = Inl (AttributeError ''tokens'')"
proof -
  have h1: "returns [select_1, nested_delete]
       ''SELECT 1; SELECT * FROM (SELECT * FROM (SELECT * FROM (DELETE FROM t)))'' =
     Inr [select_1, nested_delete]"
    by (simp add: returns_def)
  have h2: "raises (TokenizerError ''SQLParseError'') deeply_nested =
      Inl (TokenizerError ''SQLParseError'')"
    by (simp add: raises_def)
  have h3: "analyze_parsed [select_1, nested_delete] =
      \<lparr>contains_write = True, write_operations = {''DELETE''}, has_cte_write = False\<rparr>"
    by code_simp
  have h4: "find_write_operations_of delete_token = Inl (AttributeError ''tokens'')"
    by (simp add: delete_token_def keyword_token_def)
  show ?thesis
    using h1 h2 h3 h4
      analyze_query_exc_returns_or_propagates
        [of "returns [select_1, nested_delete]"
            "''SELECT 1; SELECT * FROM (SELECT * FROM (SELECT * FROM (DELETE FROM t)))''"
            "[select_1, nested_delete]"]
      analyze_query_exc_returns_or_propagates
        [of "raises (TokenizerError ''SQLParseError'')" deeply_nested _
            "TokenizerError ''SQLParseError''"]
    by simp
qed

subsection \<open>Comments and whitespace in the search\<close>

lemma find_write_operations_append:
  "find_write_operations (xs @ ys) = find_write_operations xs \<union> find_write_operations ys"
  by (induction xs) (auto split: token.splits)

lemma find_write_operations_remove_skipped:
  "find_write_operations (remove_skipped ts) = find_write_operations ts"
  by (induction ts rule: remove_skipped.induct)
     (auto simp: skipped_def keyword_classified_def split: token.splits)

text \<open>
  What the test of the search does skip: a token that is whitespace or whose type is
  \<^verbatim>\<open>Comment\<close> itself adds nothing, whatever it holds, at every depth.
\<close>

lemma find_write_operations_skipped:
  "skipped t \<Longrightarrow>
     find_write_operations (pre @ t # post) = find_write_operations (pre @ post)"
  by (simp add: find_write_operations_append)

text \<open>
  What it does not skip: a group without a type, such as the group that the tokenizer
  builds around a comment, is searched like any other group.
\<close>

lemma find_write_operations_group:
  "find_write_operations (group text cs # ts) =
     find_write_operations cs \<union> find_write_operations ts"
  by (simp add: group_def skipped_def keyword_classified_def)

text \<open>
  C5: the detector at \<^verbatim>\<open>WITH c AS (SELECT 1 /* DELETE */) SELECT * FROM c\<close>. The test
  \<^verbatim>\<open>token.ttype in (sqlparse.tokens.Comment,)\<close> compares with the type \<^verbatim>\<open>Comment\<close>
  itself, so neither the group of the comment (no type) nor its leaf (type
  \<^verbatim>\<open>Comment.Multiline\<close>) is skipped: the group is searched and the leaf is put to
  the keyword test. The search finds no keyword, but the scan after \<^verbatim>\<open>WITH\<close>, which
  skips nothing, matches \<^verbatim>\<open>DELETE\<close> in the text of the comment: the result has
  \<open>contains_write\<close> and the marker in \<open>write_operations\<close>, where the query
  without the comment has no write.
\<close>

theorem comment_tokens_not_skipped:
  "\<not> skipped comment_delete
   \<and> \<not> skipped (plain_token Comment_Multiline ''/* DELETE */'')
   \<and> find_write_operations with_comment_delete = {}
   \<and> analyze_query (returns [with_comment_delete])
        ''WITH c AS (SELECT 1 /* DELETE */) SELECT * FROM c'' =
      Inr \<lparr>contains_write = True, write_operations = {''CTE_WRITE''},
           has_cte_write = True\<rparr>
   \<and> analyze_query (returns [with_select_1]) ''WITH c AS (SELECT 1) SELECT * FROM c'' =
      Inr \<lparr>contains_write = False, write_operations = {}, has_cte_write = False\<rparr>"
  by code_simp

subsection \<open>Nested containers\<close>

lemma find_write_operations_member:
  "t \<in> set ts \<Longrightarrow> \<not> skipped t \<Longrightarrow>
   (if keyword_classified t \<and> upper (normalized t) \<in> write_keywords
    then {upper (normalized t)} else {}) \<union> find_write_operations (tokens t)
   \<subseteq> find_write_operations ts"
proof (induction ts)
  case Nil
  then show ?case by simp
next
  case (Cons a ts)
  show ?case
  proof (cases "t = a")
    case True
    with Cons.prems show ?thesis by (cases a) auto
  next
    case False
    with Cons have "(if keyword_classified t \<and> upper (normalized t) \<in> write_keywords
      then {upper (normalized t)} else {}) \<union> find_write_operations (tokens t)
      \<subseteq> find_write_operations ts" by simp
    then show ?thesis by (auto split: token.splits)
  qed
qed

lemma find_write_operations_occurs_at:
  "occurs_at d t ts \<Longrightarrow> keyword_classified t \<Longrightarrow>
   upper (normalized t) \<in> write_keywords \<Longrightarrow>
   upper (normalized t) \<in> find_write_operations ts"
proof (induction d arbitrary: ts)
  case 0
  then show ?case using find_write_operations_member [of t ts] by auto
next
  case (Suc d)
  then obtain c where c: "c \<in> set ts" "\<not> skipped c" "occurs_at d t (tokens c)"
    by auto
  from Suc.IH [OF c(3) Suc.prems(2,3)] find_write_operations_member [OF c(1,2)]
  show ?case by auto
qed

text \<open>
  C8: for every statement and every depth \<open>d\<close>, a keyword-classified token whose
  normalized text is a write keyword and which lies \<open>d\<close> containers deep in the
  statement (outside the tokens skipped as comment or whitespace) puts that keyword
  into the result of \<open>find_write_operations\<close>. The depth is not bounded.
\<close>

theorem nested_write_keyword_found:
  assumes "occurs_at d t stmt" and "keyword_classified t"
    and "normalized t = write_kw" and "write_kw \<in> write_keywords"
  shows "write_kw \<in> find_write_operations stmt"
  using find_write_operations_occurs_at [OF assms(1,2)] assms(3,4)
  by (simp add: upper_write_keyword)

text \<open>
  The theorem at \<^verbatim>\<open>SELECT * FROM (SELECT * FROM (SELECT * FROM (DELETE FROM t)))\<close>,
  where \<^verbatim>\<open>DELETE\<close> lies three parentheses deep.
\<close>

theorem nested_write_keyword_found_witness:
  "occurs_at 3 delete_token nested_delete
   \<and> keyword_classified delete_token
   \<and> normalized delete_token = ''DELETE''
   \<and> ''DELETE'' \<in> write_keywords
   \<and> ''DELETE'' \<in> find_write_operations nested_delete"
proof -
  have h1: "occurs_at 3 delete_token nested_delete"
    by code_simp
  have h2: "keyword_classified delete_token"
    by (simp add: keyword_classified_def delete_token_def keyword_token_def)
  have h3: "normalized delete_token = ''DELETE''"
    by (simp add: delete_token_def keyword_token_def)
  have h4: "''DELETE'' \<in> write_keywords"
    by (simp add: write_keywords_eq)
  show ?thesis
    using h1 h2 h3 h4 nested_write_keyword_found [OF h1 h2 h3 h4] by simp
qed


subsection \<open>The scan of the tokens after WITH\<close>

lemma find_write_operations_in_token_substring:
  "s \<in> set (subtokens t) \<Longrightarrow> write_kw \<in> write_keywords \<Longrightarrow>
   str_in write_kw (upper (normalized s)) \<Longrightarrow>
   write_kw \<in> find_write_operations_in_token t"
  by (induction t rule: find_write_operations_in_token.induct) auto

lemma analyze_cte_loop_in_cte:
  "c \<in> set ts \<Longrightarrow> \<not> is_with c \<Longrightarrow> find_write_operations_in_token c \<noteq> {} \<Longrightarrow>
   analyze_cte_loop True ts"
  by (induction ts) auto

lemma analyze_cte_loop_after_with:
  "is_with w \<Longrightarrow> analyze_cte_loop True post \<Longrightarrow>
   analyze_cte_loop in_cte (pre @ w # post)"
  by (induction pre arbitrary: in_cte) auto

text \<open>
  C6: let a statement of the query hold a top-level keyword token \<^verbatim>\<open>WITH\<close>, and after
  it a token \<open>c\<close> with a token \<open>s\<close> in it or below it whose upper-cased normalized
  text has a write keyword as a part. Then \<open>has_cte_write\<close> holds of the result;
  \<open>s\<close> need not be a keyword token and its text need not equal the keyword.
\<close>

theorem cte_scan_substring_match:
  assumes "parse sql_query = Inr parsed" and "pre @ w # post \<in> set parsed"
    and "is_with w" and "c \<in> set post" and "\<not> is_with c"
    and "s \<in> set (subtokens c)"
    and "write_kw \<in> write_keywords" and "str_in write_kw (upper (normalized s))"
  shows "\<exists>r. analyze_query parse sql_query = Inr r \<and> has_cte_write r"
proof -
  have "find_write_operations_in_token c \<noteq> {}"
    using find_write_operations_in_token_substring [OF assms(6,7,8)] by blast
  with assms(4,5) have "analyze_cte_loop True post"
    by (rule analyze_cte_loop_in_cte)
  with assms(3) have "analyze_cte (pre @ w # post)"
    unfolding analyze_cte_def by (rule analyze_cte_loop_after_with)
  moreover have "has_cte (pre @ w # post)"
    using assms(3) by (auto simp: has_cte_def)
  ultimately have "cte_write (pre @ w # post)"
    by (simp add: cte_write_def)
  with assms(2) have "has_cte_write (analyze_parsed parsed)"
    unfolding has_cte_write_analyze_parsed by blast
  then show ?thesis
    by (simp add: analyze_query_def assms(1))
qed

text \<open>
  The theorem at \<^verbatim>\<open>WITH c AS (SELECT update_count FROM t) SELECT * FROM c\<close>, for the
  identifier \<^verbatim>\<open>update_count\<close> and the keyword \<^verbatim>\<open>UPDATE\<close>.
\<close>

theorem cte_scan_substring_match_witness:
  "returns [with_update_count]
       ''WITH c AS (SELECT update_count FROM t) SELECT * FROM c'' =
     Inr [with_update_count]
   \<and> [] @ keyword_token CTE ''WITH'' # (space # cte_update_count # select_from_c)
        \<in> set [with_update_count]
   \<and> is_with (keyword_token CTE ''WITH'')
   \<and> cte_update_count \<in> set (space # cte_update_count # select_from_c)
   \<and> \<not> is_with cte_update_count
   \<and> plain_token Name ''update_count'' \<in> set (subtokens cte_update_count)
   \<and> \<not> keyword_classified (plain_token Name ''update_count'')
   \<and> ''UPDATE'' \<in> write_keywords
   \<and> str_in ''UPDATE'' (upper (normalized (plain_token Name ''update_count'')))
   \<and> (\<exists>r. analyze_query (returns [with_update_count])
              ''WITH c AS (SELECT update_count FROM t) SELECT * FROM c'' = Inr r
          \<and> has_cte_write r)"
proof -
  have h1: "returns [with_update_count]
       ''WITH c AS (SELECT update_count FROM t) SELECT * FROM c'' =
     Inr [with_update_count]"
    by (simp add: returns_def)
  have h2: "[] @ keyword_token CTE ''WITH'' # (space # cte_update_count # select_from_c)
        \<in> set [with_update_count]"
    by (simp add: with_update_count_def)
  have h3: "is_with (keyword_token CTE ''WITH'')"
    by (simp add: is_with_def keyword_token_def)
  have h4: "cte_update_count \<in> set (space # cte_update_count # select_from_c)"
    by simp
  have h5: "\<not> is_with cte_update_count"
    by (simp add: is_with_def cte_update_count_def group_def)
  have h6: "plain_token Name ''update_count'' \<in> set (subtokens cte_update_count)"
    by (simp add: cte_update_count_def group_def plain_token_def)
  have h7: "''UPDATE'' \<in> write_keywords"
    by (simp add: write_keywords_eq)
  have h8: "str_in ''UPDATE'' (upper (normalized (plain_token Name ''update_count'')))"
    by code_simp
  have h9: "\<not> keyword_classified (plain_token Name ''update_count'')"
    by code_simp
  show ?thesis
    using h1 h2 h3 h4 h5 h6 h7 h8 h9
      cte_scan_substring_match
        [of "returns [with_update_count]"
            "''WITH c AS (SELECT update_count FROM t) SELECT * FROM c''"
            "[with_update_count]" "[]" "keyword_token CTE ''WITH''"
            "space # cte_update_count # select_from_c" cte_update_count
            "plain_token Name ''update_count''" "''UPDATE''"]
    by simp
qed

subsection \<open>Queries without statements\<close>

lemma comment_type_not_keyword:
  "comment_type ty \<Longrightarrow> ty \<notin> {Some Keyword, Some DML, Some DDL}"
  by (auto simp: comment_type_def Comment_def Keyword_def DML_def DDL_def
      split: option.splits)

lemma blank_not_with: "blank t \<Longrightarrow> \<not> is_with t"
  by (cases t) (auto simp: is_with_def)

lemma find_write_operations_blank:
  "(\<forall>t \<in> set ts. blank t) \<Longrightarrow> find_write_operations ts = {}"
proof (induction ts rule: find_write_operations.induct)
  case 1
  show ?case by simp
next
  case (2 t ts)
  show ?case
  proof (cases t)
    case (Token ty n k w)
    with 2 show ?thesis
      using comment_type_not_keyword [of ty]
      by (auto simp: skipped_def keyword_classified_def)
  next
    case (TokenList ty n k w cs)
    with 2 show ?thesis
      by (auto simp: skipped_def keyword_classified_def)
  qed
qed

lemma blank_statement_operations:
  assumes "\<forall>t \<in> set stmt. blank t"
  shows "statement_operations stmt = {}" and "\<not> cte_write stmt"
proof -
  show "\<not> cte_write stmt"
    using assms by (auto simp: cte_write_def has_cte_def dest: blank_not_with)
  then show "statement_operations stmt = {}"
    using assms by (simp add: statement_operations_def find_write_operations_blank)
qed

lemma analyze_parsed_blank:
  assumes "\<forall>stmt \<in> set parsed. \<forall>t \<in> set stmt. blank t"
  shows "analyze_parsed parsed = no_write"
  unfolding analyze_parsed_eq no_write_def
  using assms by (simp add: blank_statement_operations)

text \<open>
  C7: when the tokenizer returns no statement, \<open>analyze_query\<close> returns the result
  with \<open>contains_write\<close> false, no operation and \<open>has_cte_write\<close> false; and it
  returns the same result when every statement that the tokenizer returns consists of
  whitespace and comment tokens only.
\<close>

theorem no_statements_no_write:
  "(parse sql_query = Inr [] \<longrightarrow>
      analyze_query parse sql_query =
        Inr \<lparr>contains_write = False, write_operations = {}, has_cte_write = False\<rparr>)
   \<and> (parse sql_query = Inr parsed \<and> (\<forall>stmt \<in> set parsed. \<forall>t \<in> set stmt. blank t) \<longrightarrow>
        analyze_query parse sql_query =
          Inr \<lparr>contains_write = False, write_operations = {}, has_cte_write = False\<rparr>)"
  using analyze_parsed_blank [of parsed] analyze_parsed_blank [of "[]"]
  by (auto simp: analyze_query_def no_write_def)

text \<open>
  The theorem at the empty query and at a query of whitespace and one comment, which
  has the text of a write keyword in it.
\<close>

theorem no_statements_no_write_witness:
  "returns [] [] = Inr []
   \<and> analyze_query (returns []) [] =
       Inr \<lparr>contains_write = False, write_operations = {}, has_cte_write = False\<rparr>
   \<and> returns [[space], comment_only] ''  ; -- DROP TABLE t'' = Inr [[space], comment_only]
   \<and> list_all (list_all blank) [[space], comment_only]
   \<and> analyze_query (returns [[space], comment_only]) ''  ; -- DROP TABLE t'' =
       Inr \<lparr>contains_write = False, write_operations = {}, has_cte_write = False\<rparr>"
proof -
  have h1: "returns [] [] = Inr []"
    by (simp add: returns_def)
  have h2: "returns [[space], comment_only] ''  ; -- DROP TABLE t'' =
      Inr [[space], comment_only]"
    by (simp add: returns_def)
  have h3: "list_all (list_all blank) [[space], comment_only]"
    by (simp add: comment_only_def space_def group_def plain_token_def comment_type_def
        Comment_def Comment_Single_def)
  then have h4: "\<forall>stmt \<in> set [[space], comment_only]. \<forall>t \<in> set stmt. blank t"
    by (simp add: list_all_iff)
  show ?thesis
    using h1 h2 h3 h4
      no_statements_no_write [of "returns []" "[]" "[]"]
      no_statements_no_write
        [of "returns [[space], comment_only]" "''  ; -- DROP TABLE t''"
            "[[space], comment_only]"]
    by simp
qed

subsection \<open>Several statements\<close>

lemma analyze_parsed_append:
  "analyze_parsed (xs @ ys) = merge_results (analyze_parsed xs) (analyze_parsed ys)"
  unfolding analyze_parsed_eq merge_results_def by (simp add: image_Un) blast

lemma analyze_parsed_fold:
  "fold (\<lambda>stmt acc. merge_results acc (analyze_parsed [stmt])) parsed (analyze_parsed xs)
   = analyze_parsed (xs @ parsed)"
proof (induction parsed arbitrary: xs)
  case Nil
  show ?case by simp
next
  case (Cons stmt parsed)
  have "merge_results (analyze_parsed xs) (analyze_parsed [stmt]) =
      analyze_parsed (xs @ [stmt])"
    by (simp only: analyze_parsed_append)
  then show ?case using Cons.IH [of "xs @ [stmt]"] by simp
qed

lemma analyze_parsed_set:
  "set xs = set ys \<Longrightarrow> analyze_parsed xs = analyze_parsed ys"
  by (simp only: analyze_parsed_eq)

lemma analyze_parsed_Nil: "analyze_parsed [] = no_write"
  by (simp add: no_write_def analyze_parsed_def)

text \<open>
  C9: the result for a query is the merge, statement by statement, of the results of
  its statements taken alone (union of the operations, disjunction of the flags),
  started from the result without a write. Hence a query whose statements are those of
  another one in another order has the same result, and a write keyword found in one
  statement is in \<open>write_operations\<close> with \<open>contains_write\<close> true, whatever the
  other statements are.
\<close>

theorem statements_merged_by_union:
  assumes "parse sql_query = Inr parsed"
  shows "analyze_query parse sql_query =
           Inr (fold (\<lambda>stmt acc. merge_results acc (analyze_parsed [stmt])) parsed no_write)
     \<and> (parse' sql_query' = Inr parsed' \<and> mset parsed' = mset parsed \<longrightarrow>
          analyze_query parse' sql_query' = analyze_query parse sql_query)
     \<and> (stmt \<in> set parsed \<and> write_kw \<in> find_write_operations stmt \<longrightarrow>
          (\<exists>r. analyze_query parse sql_query = Inr r \<and> contains_write r
             \<and> write_kw \<in> write_operations r))"
proof (intro conjI impI)
  show "analyze_query parse sql_query =
      Inr (fold (\<lambda>stmt acc. merge_results acc (analyze_parsed [stmt])) parsed no_write)"
    using analyze_parsed_fold [of parsed "[]"]
    by (simp add: analyze_query_def assms analyze_parsed_Nil)
next
  assume "parse' sql_query' = Inr parsed' \<and> mset parsed' = mset parsed"
  then have "parse' sql_query' = Inr parsed'" and "set parsed' = set parsed"
    by (auto dest: mset_eq_setD)
  then show "analyze_query parse' sql_query' = analyze_query parse sql_query"
    using analyze_parsed_set [of parsed' parsed] by (simp add: analyze_query_def assms)
next
  assume a: "stmt \<in> set parsed \<and> write_kw \<in> find_write_operations stmt"
  then have "write_kw \<in> statement_operations stmt"
    by (simp add: statement_operations_def)
  with a have "write_kw \<in> write_operations (analyze_parsed parsed)"
    unfolding write_operations_analyze_parsed by blast
  then show "\<exists>r. analyze_query parse sql_query = Inr r \<and> contains_write r
      \<and> write_kw \<in> write_operations r"
    using contains_write_analyze_parsed [of parsed]
    by (auto simp: analyze_query_def assms)
qed

text \<open>
  The theorem at \<^verbatim>\<open>SELECT 1; UPDATE t SET x=1\<close> and at the two statements in the
  other order.
\<close>

theorem statements_merged_by_union_witness:
  "returns [select_1, update_t] ''SELECT 1; UPDATE t SET x=1'' = Inr [select_1, update_t]
   \<and> returns [update_t, select_1] ''UPDATE t SET x=1; SELECT 1'' = Inr [update_t, select_1]
   \<and> mset [update_t, select_1] = mset [select_1, update_t]
   \<and> update_t \<in> set [select_1, update_t]
   \<and> ''UPDATE'' \<in> find_write_operations update_t
   \<and> find_write_operations select_1 = {}
   \<and> analyze_query (returns [update_t, select_1]) ''UPDATE t SET x=1; SELECT 1'' =
       analyze_query (returns [select_1, update_t]) ''SELECT 1; UPDATE t SET x=1''
   \<and> (\<exists>r. analyze_query (returns [select_1, update_t]) ''SELECT 1; UPDATE t SET x=1'' = Inr r
          \<and> contains_write r \<and> ''UPDATE'' \<in> write_operations r)"
proof -
  have h1: "returns [select_1, update_t] ''SELECT 1; UPDATE t SET x=1'' =
      Inr [select_1, update_t]"
    by (simp add: returns_def)
  have h2: "returns [update_t, select_1] ''UPDATE t SET x=1; SELECT 1'' =
      Inr [update_t, select_1]"
    by (simp add: returns_def)
  have h3: "mset [update_t, select_1] = mset [select_1, update_t]"
    by (simp add: add_mset_commute)
  have h4: "update_t \<in> set [select_1, update_t]"
    by simp
  have h5: "''UPDATE'' \<in> find_write_operations update_t"
    by code_simp
  have h6: "find_write_operations select_1 = {}"
    by code_simp
  have "analyze_query (returns [update_t, select_1]) ''UPDATE t SET x=1; SELECT 1'' =
       analyze_query (returns [select_1, update_t]) ''SELECT 1; UPDATE t SET x=1''
   \<and> (\<exists>r. analyze_query (returns [select_1, update_t]) ''SELECT 1; UPDATE t SET x=1'' = Inr r
          \<and> contains_write r \<and> ''UPDATE'' \<in> write_operations r)"
    using h1 h2 h3 h4 h5
      statements_merged_by_union
        [of "returns [select_1, update_t]" "''SELECT 1; UPDATE t SET x=1''"
            "[select_1, update_t]"
            "returns [update_t, select_1]" "''UPDATE t SET x=1; SELECT 1''"
            "[update_t, select_1]" update_t "''UPDATE''"]
    by blast
  with h1 h2 h3 h4 h5 h6 show ?thesis
    by blast
qed

subsection \<open>What the scan after WITH adds to the result\<close>

text \<open>
  C10: apart from the marker \<^verbatim>\<open>CTE_WRITE\<close>, the members of \<open>write_operations\<close> are
  the keywords that \<open>find_write_operations\<close> finds in the statements; the marker is
  a member exactly when \<open>has_cte_write\<close> holds, which is when the scan after
  \<^verbatim>\<open>WITH\<close> reports a write in some statement. So when the scan reports a write and
  no statement has an exact match, \<open>write_operations\<close> is the marker alone.
\<close>

theorem cte_scan_contributes_marker_only:
  assumes "parse sql_query = Inr parsed" and "analyze_query parse sql_query = Inr r"
  shows "write_operations r - {''CTE_WRITE''} =
           (\<Union>stmt \<in> set parsed. find_write_operations stmt)
     \<and> (''CTE_WRITE'' \<in> write_operations r \<longleftrightarrow> has_cte_write r)
     \<and> (has_cte_write r \<longleftrightarrow> (\<exists>stmt \<in> set parsed. has_cte stmt \<and> analyze_cte stmt))
     \<and> (has_cte_write r \<and> (\<forall>stmt \<in> set parsed. find_write_operations stmt = {})
          \<longrightarrow> write_operations r = {''CTE_WRITE''})"
proof -
  from assms have r: "r = analyze_parsed parsed"
    by (simp add: analyze_query_def)
  have nk: "''CTE_WRITE'' \<notin> find_write_operations stmt" for stmt
    using find_write_operations_subset [of stmt] CTE_WRITE_not_keyword by blast
  have 1: "write_operations r - {''CTE_WRITE''} =
      (\<Union>stmt \<in> set parsed. find_write_operations stmt)"
    unfolding r write_operations_analyze_parsed using nk
    by (auto simp: statement_operations_def split: if_splits)
  have 2: "''CTE_WRITE'' \<in> write_operations r \<longleftrightarrow> has_cte_write r"
    unfolding r write_operations_analyze_parsed has_cte_write_analyze_parsed using nk
    by (auto simp: statement_operations_def split: if_splits)
  have 3: "has_cte_write r \<longleftrightarrow> (\<exists>stmt \<in> set parsed. has_cte stmt \<and> analyze_cte stmt)"
    unfolding r has_cte_write_analyze_parsed by (simp add: cte_write_def)
  have 4: "has_cte_write r \<and> (\<forall>stmt \<in> set parsed. find_write_operations stmt = {})
          \<longrightarrow> write_operations r = {''CTE_WRITE''}"
    using 1 2 by auto
  show ?thesis using 1 2 3 4 by blast
qed

text \<open>
  The theorem at \<^verbatim>\<open>WITH c AS (SELECT 'DELETE') SELECT * FROM c\<close>: the scan matches
  \<^verbatim>\<open>DELETE\<close> inside the string literal, no token is a write keyword, and the result
  holds the marker without \<^verbatim>\<open>DELETE\<close>.
\<close>

theorem cte_scan_contributes_marker_only_witness:
  "returns [with_string_delete] (''WITH c AS (SELECT '' @ quoted ''DELETE'' @ '') SELECT * FROM c'')
     = Inr [with_string_delete]
   \<and> analyze_query (returns [with_string_delete])
        (''WITH c AS (SELECT '' @ quoted ''DELETE'' @ '') SELECT * FROM c'') =
      Inr \<lparr>contains_write = True, write_operations = {''CTE_WRITE''}, has_cte_write = True\<rparr>
   \<and> ''DELETE'' \<in> find_write_operations_in_token cte_string_delete
   \<and> find_write_operations with_string_delete = {}
   \<and> has_cte with_string_delete \<and> analyze_cte with_string_delete"
proof -
  have h1: "returns [with_string_delete]
      (''WITH c AS (SELECT '' @ quoted ''DELETE'' @ '') SELECT * FROM c'')
     = Inr [with_string_delete]"
    by (simp add: returns_def)
  have h2: "analyze_query (returns [with_string_delete])
        (''WITH c AS (SELECT '' @ quoted ''DELETE'' @ '') SELECT * FROM c'') =
      Inr \<lparr>contains_write = True, write_operations = {''CTE_WRITE''}, has_cte_write = True\<rparr>"
    by code_simp
  have h3: "''DELETE'' \<in> find_write_operations_in_token cte_string_delete"
    by code_simp
  have h4: "find_write_operations with_string_delete = {}"
    by code_simp
  show ?thesis
    using h1 h2 h3 h4
      cte_scan_contributes_marker_only
        [of "returns [with_string_delete]"
            "''WITH c AS (SELECT '' @ quoted ''DELETE'' @ '') SELECT * FROM c''"
            "[with_string_delete]"
            "\<lparr>contains_write = True, write_operations = {''CTE_WRITE''},
               has_cte_write = True\<rparr>"]
    by simp
qed


end
